theory Spec2Isabelle
  imports Main "HOL-Library.Multiset"
begin

section \<open>Data model\<close>

text \<open>
  An exception of the Python program: its class name and its message. The only exception
  the source itself provokes is the \<open>AttributeError\<close> of reading an attribute that
  \<open>search\<close> has not set yet; every other one is raised inside the libraries
  (\<open>Bio.Entrez\<close>, \<open>Bio.SeqIO\<close>) and reaches the model through the replies of the service.
\<close>

datatype error = PyError (cls: string) (msg: string)

definition attribute_error :: "string \<Rightarrow> error" where
  "attribute_error name =
     PyError ''AttributeError'' (''NCBIRetriever object has no attribute '' @ name)"

text \<open>One GenBank record as \<open>SeqIO.parse\<close> yields it: \<open>r.id\<close>, \<open>r.seq\<close>, \<open>r.description\<close>.\<close>

record seq_record =
  r_id :: string
  r_seq :: string
  r_description :: string

text \<open>The tuple \<open>(r.id, l, r.description)\<close> that \<open>fetch_and_filter\<close> appends.\<close>

type_synonym row = "string \<times> int \<times> string"

definition Accession :: "row \<Rightarrow> string" where
  "Accession t = fst t"

definition Length :: "row \<Rightarrow> int" where
  "Length t = fst (snd t)"

definition Description :: "row \<Rightarrow> string" where
  "Description t = snd (snd t)"

text \<open>The keyword arguments of the two calls into \<open>Bio.Entrez\<close>.\<close>

record esearch_call =
  s_db :: string
  s_term :: string
  s_usehistory :: string
  s_retmax :: int

record efetch_call =
  db :: string
  rettype :: string
  retmode :: string
  retstart :: int
  retmax :: int
  webenv :: string
  query_key :: string

text \<open>
  The remote service, with a state \<open>'w\<close> of its own that every request may change.
  \<open>esearch\<close> stands for \<open>Entrez.read(Entrez.esearch(...))\<close> followed by the three reads
  \<open>res["WebEnv"]\<close>, \<open>res["QueryKey"]\<close>, \<open>int(res["Count"])\<close>: either the three values, or
  the exception of the transport, of a missing key or of a count that is no integer.
  \<open>efetch\<close> stands for \<open>Entrez.efetch(...)\<close> followed by \<open>SeqIO.parse(handle, "gb")\<close>: either
  the records of the page in server order, or the exception of the transport or the parser.
\<close>

record 'w service =
  esearch :: "esearch_call \<Rightarrow> 'w \<Rightarrow> (error + string \<times> string \<times> int) \<times> 'w"
  efetch :: "efetch_call \<Rightarrow> 'w \<Rightarrow> (error + seq_record list) \<times> 'w"

text \<open>What the two sinks write: the CSV table (header and rows), the plotted x and y values.\<close>

datatype file_content =
  CSV "string list" "row list"
| PNG "string list" "int list"

text \<open>
  The state outside the object: the module attributes of \<open>Entrez\<close> that the constructor
  sets, the state of the remote service, every \<open>efetch\<close> call made so far with what came
  back (oldest first), the lines printed and the files written.
\<close>

record 'w world =
  Entrez_email :: string
  Entrez_api_key :: string
  Entrez_tool :: string
  ncbi :: 'w
  fetched :: "(efetch_call \<times> (error + seq_record list)) list"
  stdout :: "string list"
  written :: "(string \<times> file_content) list"

text \<open>
  The object: \<open>min_len\<close> and \<open>max_len\<close> are set by the constructor; \<open>env\<close>, \<open>key\<close> and
  \<open>count\<close> exist only once \<open>search\<close> has assigned them (\<open>None\<close>: the attribute is unset).
\<close>

record retriever =
  self_min_len :: int
  self_max_len :: int
  self_env :: "string option"
  self_key :: "string option"
  self_count :: "int option"

section \<open>The retriever\<close>

definition NCBIRetriever_init ::
  "string \<Rightarrow> string \<Rightarrow> int \<Rightarrow> int \<Rightarrow> 'w world \<Rightarrow> retriever \<times> 'w world" where
  "NCBIRetriever_init email api_key min_len max_len w =
     (\<lparr>self_min_len = min_len, self_max_len = max_len,
       self_env = None, self_key = None, self_count = None\<rparr>,
      w\<lparr>Entrez_email := email, Entrez_api_key := api_key, Entrez_tool := ''BioScriptEx10''\<rparr>)"

definition search ::
  "'w service \<Rightarrow> retriever \<Rightarrow> string \<Rightarrow> 'w world \<Rightarrow> (error + int) \<times> retriever \<times> 'w world" where
  "search srv self taxid w =
     (let term = ''txid'' @ taxid @ ''[Organism]'' in
      case esearch srv \<lparr>s_db = ''nucleotide'', s_term = term, s_usehistory = ''y'', s_retmax = 0\<rparr>
             (ncbi w) of
        (Inl e, n') \<Rightarrow> (Inl e, self, w\<lparr>ncbi := n'\<rparr>)
      | (Inr (res_WebEnv, res_QueryKey, res_Count), n') \<Rightarrow>
          (Inr res_Count,
           self\<lparr>self_env := Some res_WebEnv, self_key := Some res_QueryKey,
                self_count := Some res_Count\<rparr>,
           w\<lparr>ncbi := n'\<rparr>))"

text \<open>
  Python's \<open>range(start, stop, step)\<close> as the list of its values. A step of 0 raises in
  Python; \<open>fetch_and_filter\<close> only ever passes the constant 100.
\<close>

function py_range :: "int \<Rightarrow> int \<Rightarrow> int \<Rightarrow> int list" where
  "py_range start stop step =
     (if 0 < step \<and> start < stop then start # py_range (start + step) stop step
      else if step < 0 \<and> stop < start then start # py_range (start + step) stop step
      else [])"
  by pat_completeness auto
termination
  by (relation "measure (\<lambda>(start, stop, step).
        nat (if 0 < step then stop - start else start - stop))") auto

declare py_range.simps [simp del]

text \<open>The inner loop over the records of one page.\<close>

fun parse_loop :: "retriever \<Rightarrow> seq_record list \<Rightarrow> row list \<Rightarrow> row list" where
  "parse_loop self [] records = records"
| "parse_loop self (r # rs) records =
     (let l = int (length (r_seq r)) in
      if self_min_len self \<le> l \<and> l \<le> self_max_len self
      then parse_loop self rs (records @ [(r_id r, l, r_description r)])
      else parse_loop self rs records)"

text \<open>One call of \<open>Entrez.efetch\<close> with the parse of its handle; the call is logged.\<close>

definition Entrez_efetch ::
  "'w service \<Rightarrow> efetch_call \<Rightarrow> 'w world \<Rightarrow> (error + seq_record list) \<times> 'w world" where
  "Entrez_efetch srv c w =
     (case efetch srv c (ncbi w) of
        (reply, n') \<Rightarrow> (reply, w\<lparr>ncbi := n', fetched := fetched w @ [(c, reply)]\<rparr>))"

text \<open>
  The outer loop over the values of the range. The keyword arguments are evaluated before
  the call, so an unset \<open>env\<close> or \<open>key\<close> raises before anything is sent; an exception of
  the page leaves the loop and the method.
\<close>

fun fetch_loop ::
  "'w service \<Rightarrow> retriever \<Rightarrow> int \<Rightarrow> int list \<Rightarrow> row list \<Rightarrow> 'w world
     \<Rightarrow> (error + row list) \<times> 'w world" where
  "fetch_loop srv self step [] records w = (Inr records, w)"
| "fetch_loop srv self step (start # rest) records w =
     (case self_env self of
        None \<Rightarrow> (Inl (attribute_error ''env''), w)
      | Some e \<Rightarrow>
     (case self_key self of
        None \<Rightarrow> (Inl (attribute_error ''key''), w)
      | Some k \<Rightarrow>
     (case Entrez_efetch srv
             \<lparr>db = ''nucleotide'', rettype = ''gb'', retmode = ''text'',
              retstart = start, retmax = step, webenv = e, query_key = k\<rparr> w of
        (Inl err, w') \<Rightarrow> (Inl err, w')
      | (Inr page, w') \<Rightarrow> fetch_loop srv self step rest (parse_loop self page records) w')))"

definition fetch_and_filter ::
  "'w service \<Rightarrow> retriever \<Rightarrow> int \<Rightarrow> 'w world \<Rightarrow> (error + row list) \<times> 'w world" where
  "fetch_and_filter srv self max_records w =
     (let records = []; step = 100 in
      case self_count self of
        None \<Rightarrow> (Inl (attribute_error ''count''), w)
      | Some c \<Rightarrow> fetch_loop srv self step (py_range 0 (min c max_records) step) records w)"

section \<open>The sinks\<close>

text \<open>
  \<open>pd.DataFrame(data, columns=["Accession", "Length", "Description"])\<close> is the list of
  its rows.

  \<open>df.sort_values("Length", ascending=False, inplace=True)\<close> sorts on one column, and the
  library does it in three steps. \<open>argsort\<close> orders the positions of a column by ascending
  value. \<open>nargsort\<close> turns that into the order asked for: for \<open>ascending=False\<close> it
  reverses the column and the positions, takes the \<open>argsort\<close> of the reversed column, and
  reverses what comes out. \<open>sort_values\<close> takes the rows at these positions.

  The call passes no \<open>kind\<close>, so the sorting algorithm is the library's default, and which
  of two equal values it puts first is its own affair. \<open>tie\<close> stands for that choice: among
  equal values, the position with the smaller \<open>tie\<close> comes first, and positions that \<open>tie\<close>
  does not separate stay as they were. Every order that a sort by value can produce is
  the order of some \<open>tie\<close>; no property of \<open>tie\<close> is assumed anywhere.
\<close>

type_synonym data_frame = "row list"

definition DataFrame :: "row list \<Rightarrow> data_frame" where
  "DataFrame data = data"

definition argsort :: "(nat \<Rightarrow> nat) \<Rightarrow> int list \<Rightarrow> nat list" where
  "argsort tie items = sort_key (\<lambda>i. items ! i) (sort_key tie [0 ..< length items])"

definition nargsort :: "(nat \<Rightarrow> nat) \<Rightarrow> bool \<Rightarrow> int list \<Rightarrow> nat list" where
  "nargsort tie ascending items =
     (let idx = [0 ..< length items];
          items = (if \<not> ascending then rev items else items);
          idx = (if \<not> ascending then rev idx else idx);
          indexer = map (\<lambda>j. idx ! j) (argsort tie items)
      in if \<not> ascending then rev indexer else indexer)"

definition sort_values :: "(nat \<Rightarrow> nat) \<Rightarrow> bool \<Rightarrow> data_frame \<Rightarrow> data_frame" where
  "sort_values tie ascending df = map (\<lambda>i. df ! i) (nargsort tie ascending (map Length df))"

definition save_csv ::
  "(nat \<Rightarrow> nat) \<Rightarrow> row list \<Rightarrow> string \<Rightarrow> 'w world \<Rightarrow> data_frame \<times> 'w world" where
  "save_csv tie data filename w =
     (let df = DataFrame data;
          df = sort_values tie False df
      in (df, w\<lparr>written := written w @
                  [(filename, CSV [''Accession'', ''Length'', ''Description''] df)]\<rparr>))"

definition plot_lengths :: "data_frame \<Rightarrow> string \<Rightarrow> 'w world \<Rightarrow> 'w world" where
  "plot_lengths df output w =
     w\<lparr>written := written w @ [(output, PNG (map Accession df) (map Length df))]\<rparr>"

section \<open>The command line\<close>

text \<open>The namespace that \<open>parse_args\<close> returns.\<close>

record args =
  arg_email :: string
  arg_api_key :: string
  arg_taxid :: string
  arg_min_len :: int
  arg_max_len :: int
  arg_limit :: int

definition print :: "string \<Rightarrow> 'w world \<Rightarrow> 'w world" where
  "print line w = w\<lparr>stdout := stdout w @ [line]\<rparr>"

definition main ::
  "'w service \<Rightarrow> (nat \<Rightarrow> nat) \<Rightarrow> args \<Rightarrow> 'w world \<Rightarrow> (error + unit) \<times> 'w world" where
  "main srv tie a w =
     (case NCBIRetriever_init (arg_email a) (arg_api_key a) (arg_min_len a) (arg_max_len a) w of
        (r, w) \<Rightarrow>
     (let w = print (''Searching TaxID '' @ arg_taxid a @ ''...'') w in
      case search srv r (arg_taxid a) w of
        (Inl e, r, w) \<Rightarrow> (Inl e, w)
      | (Inr n, r, w) \<Rightarrow>
          if n = 0 then (Inr (), print ''No records found.'' w)
          else
            (let w = print ''Fetching & filtering...'' w in
             case fetch_and_filter srv r (arg_limit a) w of
               (Inl e, w) \<Rightarrow> (Inl e, w)
             | (Inr data, w) \<Rightarrow>
                 if data = [] then (Inr (), print ''No records within length range.'' w)
                 else
                   (let csv_file = ''taxid_'' @ arg_taxid a @ ''_filtered.csv'';
                        png_file = ''taxid_'' @ arg_taxid a @ ''_plot.png'' in
                    case save_csv tie data csv_file w of
                      (df, w) \<Rightarrow>
                        (let w = plot_lengths df png_file w;
                             w = print (''Saved CSV: '' @ csv_file) w;
                             w = print (''Saved plot: '' @ png_file) w
                         in (Inr (), w))))))"

text \<open>
  The exit status of the script: \<open>main\<close> returning gives 0, an exception that nobody
  catches gives 1.
\<close>

definition exit_code :: "error + unit \<Rightarrow> int" where
  "exit_code outcome = (case outcome of Inr _ \<Rightarrow> 0 | Inl _ \<Rightarrow> 1)"

section \<open>Observations on a run\<close>

text \<open>The \<open>efetch\<close> calls made between two states of the world, with their replies.\<close>

definition issued ::
  "'w world \<Rightarrow> 'w world \<Rightarrow> (efetch_call \<times> (error + seq_record list)) list" where
  "issued w w' = drop (length (fetched w)) (fetched w')"

text \<open>The records that the replies delivered, page after page.\<close>

definition page_of :: "error + seq_record list \<Rightarrow> seq_record list" where
  "page_of reply = (case reply of Inl _ \<Rightarrow> [] | Inr page \<Rightarrow> page)"

definition received :: "(efetch_call \<times> (error + seq_record list)) list \<Rightarrow> seq_record list" where
  "received log = concat (map (\<lambda>(c, reply). page_of reply) log)"

text \<open>The tuple of a record, and the test of the length filter.\<close>

definition triple :: "seq_record \<Rightarrow> row" where
  "triple r = (r_id r, int (length (r_seq r)), r_description r)"

definition in_bounds :: "retriever \<Rightarrow> seq_record \<Rightarrow> bool" where
  "in_bounds self r =
     (self_min_len self \<le> int (length (r_seq r)) \<and> int (length (r_seq r)) \<le> self_max_len self)"

text \<open>Whether an outcome is an exception of the class with the given name.\<close>

definition signals :: "error + 'a \<Rightarrow> string \<Rightarrow> bool" where
  "signals outcome name = (case outcome of Inl e \<Rightarrow> cls e = name | Inr _ \<Rightarrow> False)"

section \<open>Example services\<close>

text \<open>
  A service that keeps a list of records, reports its size as the count and answers a
  fetch with the requested window; and one that reports a given count and answers every
  fetch with the same page.
\<close>

definition honest_service :: "seq_record list \<Rightarrow> unit service" where
  "honest_service store =
     \<lparr>esearch = (\<lambda>c s. (Inr (''MCID_1'', ''1'', int (length store)), s)),
      efetch = (\<lambda>c s. (Inr (take (nat (retmax c)) (drop (nat (retstart c)) store)), s))\<rparr>"

definition fixed_service :: "int \<Rightarrow> seq_record list \<Rightarrow> unit service" where
  "fixed_service n page =
     \<lparr>esearch = (\<lambda>c s. (Inr (''MCID_1'', ''1'', n), s)),
      efetch = (\<lambda>c s. (Inr page, s))\<rparr>"

definition down_service :: "unit service" where
  "down_service =
     \<lparr>esearch = (\<lambda>c s. (Inl (PyError ''HTTPError'' ''502''), s)),
      efetch = (\<lambda>c s. (Inl (PyError ''HTTPError'' ''502''), s))\<rparr>"

definition fresh_world :: "unit world" where
  "fresh_world =
     \<lparr>Entrez_email = [], Entrez_api_key = [], Entrez_tool = [], ncbi = (),
      fetched = [], stdout = [], written = []\<rparr>"

definition searched :: "int \<Rightarrow> int \<Rightarrow> int \<Rightarrow> retriever" where
  "searched min_len max_len n =
     \<lparr>self_min_len = min_len, self_max_len = max_len, self_env = Some ''MCID_1'',
      self_key = Some ''1'', self_count = Some n\<rparr>"

definition page_call :: "int \<Rightarrow> efetch_call" where
  "page_call start =
     \<lparr>db = ''nucleotide'', rettype = ''gb'', retmode = ''text'', retstart = start,
      retmax = 100, webenv = ''MCID_1'', query_key = ''1''\<rparr>"

definition rec_of_length :: "string \<Rightarrow> nat \<Rightarrow> seq_record" where
  "rec_of_length name n = \<lparr>r_id = name, r_seq = replicate n CHR ''A'', r_description = ''demo''\<rparr>"

section \<open>Example tables\<close>

text \<open>
  Four rows with two equal lengths, and two choices among equal values: the one that
  leaves them as they stand, and the one that puts the later position first.
\<close>

definition four_rows :: "row list" where
  "four_rows = [(''A'', 120, ''a''), (''B'', 500, ''b''), (''C'', 120, ''c''), (''D'', 300, ''d'')]"

definition keep_ties :: "nat \<Rightarrow> nat" where
  "keep_ties i = 0"

definition flip_ties :: "nat \<Rightarrow> nat" where
  "flip_ties i = 4 - i"

section \<open>Example command line\<close>

definition demo_args :: args where
  "demo_args =
     \<lparr>arg_email = ''me@example.org'', arg_api_key = ''key'', arg_taxid = ''9606'',
      arg_min_len = 100, arg_max_len = 1500, arg_limit = 200\<rparr>"

section \<open>The values of the range\<close>

lemma dvd_shift: "(s::int) dvd (x - (a + s)) \<longleftrightarrow> s dvd (x - a)"
proof -
  have e: "x - (a + s) + s = x - a" by simp
  show ?thesis using dvd_add_triv_right_iff [of s "x - (a + s)"] unfolding e by simp
qed

lemma py_range_pos_step:
  "0 < s \<Longrightarrow> a < b \<Longrightarrow> py_range a b s = a # py_range (a + s) b s"
  by (subst py_range.simps) simp

lemma py_range_pos_empty:
  "0 < s \<Longrightarrow> \<not> a < b \<Longrightarrow> py_range a b s = []"
  by (subst py_range.simps) simp

lemma set_py_range:
  "0 < s \<Longrightarrow> set (py_range a b s) = {x. a \<le> x \<and> x < b \<and> s dvd (x - a)}"
proof (induction a b s rule: py_range.induct)
  case (1 start stop step)
  show ?case
  proof (cases "start < stop")
    case True
    have IH: "set (py_range (start + step) stop step) =
        {x. start + step \<le> x \<and> x < stop \<and> step dvd (x - (start + step))}"
      using 1 True by simp
    have le: "step \<le> x - start" if "start < x" "step dvd (x - start)" for x
      using that by (intro zdvd_imp_le) simp_all
    have "{x. start \<le> x \<and> x < stop \<and> step dvd (x - start)} =
       insert start {x. start + step \<le> x \<and> x < stop \<and> step dvd (x - (start + step))}"
      (is "?L = ?R")
    proof (rule set_eqI)
      fix x
      show "x \<in> ?L \<longleftrightarrow> x \<in> ?R"
      proof (cases "x = start")
        case True
        then show ?thesis using \<open>start < stop\<close> by simp
      next
        case False
        then show ?thesis
          using le [of x] 1(3) by (auto simp: dvd_shift)
      qed
    qed
    then show ?thesis
      using True 1(3) IH by (simp add: py_range_pos_step)
  next
    case False
    then show ?thesis using 1(3) by (auto simp: py_range_pos_empty)
  qed
qed

lemma sorted_py_range: "0 < s \<Longrightarrow> sorted_wrt (<) (py_range a b s)"
proof (induction a b s rule: py_range.induct)
  case (1 start stop step)
  show ?case
  proof (cases "start < stop")
    case True
    then have "sorted_wrt (<) (py_range (start + step) stop step)"
      using 1 by simp
    moreover have "\<forall>x \<in> set (py_range (start + step) stop step). start < x"
      using 1(3) by (simp add: set_py_range)
    ultimately show ?thesis
      using True 1(3) by (simp add: py_range_pos_step)
  next
    case False
    then show ?thesis using 1(3) by (simp add: py_range_pos_empty)
  qed
qed

lemma py_range_closed:
  "0 < s \<Longrightarrow> py_range a b s = map (\<lambda>k. a + s * int k) [0 ..< nat ((b - a + s - 1) div s)]"
proof (induction a b s rule: py_range.induct)
  case (1 start stop step)
  show ?case
  proof (cases "start < stop")
    case True
    let ?m = "nat ((stop - (start + step) + step - 1) div step)"
    have e: "stop - start + step - 1 = (stop - start - 1) + step" by simp
    have "(stop - start + step - 1) div step = (stop - start - 1) div step + 1"
      unfolding e using 1(3) by (simp add: div_add_self2)
    moreover have "0 \<le> (stop - start - 1) div step"
      using True 1(3) by (simp add: pos_imp_zdiv_nonneg_iff)
    moreover have "stop - (start + step) + step - 1 = stop - start - 1" by simp
    ultimately have n: "nat ((stop - start + step - 1) div step) = Suc ?m"
      by (simp add: nat_add_distrib)
    have IH: "py_range (start + step) stop step = map (\<lambda>k. start + step + step * int k) [0 ..< ?m]"
      using 1 True by simp
    have "map (\<lambda>k. start + step * int k) [0 ..< Suc ?m] =
          start # map (\<lambda>k. start + step * int k) (map Suc [0 ..< ?m])"
      unfolding map_Suc_upt by (simp add: upt_conv_Cons del: upt_Suc)
    also have "map (\<lambda>k. start + step * int k) (map Suc [0 ..< ?m]) =
          map (\<lambda>k. start + step + step * int k) [0 ..< ?m]"
      by (simp add: algebra_simps)
    finally show ?thesis
      using True 1(3) IH n by (simp add: py_range_pos_step)
  next
    case False
    then have "stop - start + step - 1 \<le> step - 1" by simp
    then have "(stop - start + step - 1) div step \<le> (step - 1) div step"
      using 1(3) by (intro zdiv_mono1) simp_all
    moreover have "(step - 1) div step = 0" using 1(3) by simp
    ultimately show ?thesis using False 1(3) by (simp add: py_range_pos_empty)
  qed
qed

section \<open>The two loops\<close>

lemma parse_loop_eq:
  "parse_loop self page records = records @ map triple (filter (in_bounds self) page)"
  by (induction page arbitrary: records) (simp_all add: Let_def triple_def in_bounds_def)

lemma Entrez_efetch_world:
  assumes "Entrez_efetch srv c w = (reply, w')"
  shows "fetched w' = fetched w @ [(c, reply)]"
    and "stdout w' = stdout w" and "written w' = written w"
    and "Entrez_email w' = Entrez_email w" and "Entrez_api_key w' = Entrez_api_key w"
    and "Entrez_tool w' = Entrez_tool w"
  using assms by (auto simp: Entrez_efetch_def split: prod.splits)

lemma fetch_loop_log:
  "fetch_loop srv self step starts records w = (res, w') \<Longrightarrow>
   \<exists>log. fetched w' = fetched w @ log \<and>
     map (\<lambda>(c, reply). retstart c) log = take (length log) starts \<and>
     (\<forall>(c, reply) \<in> set log. retmax c = step \<and> self_env self = Some (webenv c) \<and>
        self_key self = Some (query_key c) \<and> db c = ''nucleotide'' \<and>
        rettype c = ''gb'' \<and> retmode c = ''text'') \<and>
     (\<forall>recs. res = Inr recs \<longrightarrow> length log = length starts \<and>
        recs = records @ map triple (filter (in_bounds self) (received log)))"
proof (induction starts arbitrary: records w)
  case Nil
  then show ?case by (auto simp: received_def)
next
  case (Cons start rest)
  show ?case
  proof (cases "self_env self")
    case None
    then show ?thesis using Cons.prems by (auto simp: received_def)
  next
    case (Some e)
    note env = this
    show ?thesis
    proof (cases "self_key self")
      case None
      then show ?thesis using Cons.prems env by (auto simp: received_def)
    next
      case (Some k)
      define c where "c = \<lparr>db = ''nucleotide'', rettype = ''gb'', retmode = ''text'',
              retstart = start, retmax = step, webenv = e, query_key = k\<rparr>"
      obtain reply w1 where ef: "Entrez_efetch srv c w = (reply, w1)"
        by (cases "Entrez_efetch srv c w")
      have f1: "fetched w1 = fetched w @ [(c, reply)]"
        using ef by (rule Entrez_efetch_world)
      have cprops: "retstart c = start" "retmax c = step" "self_env self = Some (webenv c)"
        "self_key self = Some (query_key c)" "db c = ''nucleotide''" "rettype c = ''gb''"
        "retmode c = ''text''"
        using env Some by (simp_all add: c_def)
      show ?thesis
      proof (cases reply)
        case (Inl err)
        then have "res = Inl err" "w' = w1"
          using Cons.prems env Some ef by (simp_all add: c_def)
        then show ?thesis
          using f1 cprops by (intro exI [of _ "[(c, reply)]"]) simp
      next
        case (Inr page)
        then have "fetch_loop srv self step rest (parse_loop self page records) w1 = (res, w')"
          using Cons.prems env Some ef by (simp add: c_def)
        from Cons.IH [OF this] obtain log where
          l1: "fetched w' = fetched w1 @ log" and
          l2: "map (\<lambda>(c, reply). retstart c) log = take (length log) rest" and
          l3: "\<forall>(c, reply) \<in> set log. retmax c = step \<and> self_env self = Some (webenv c) \<and>
             self_key self = Some (query_key c) \<and> db c = ''nucleotide'' \<and>
             rettype c = ''gb'' \<and> retmode c = ''text''" and
          l4: "\<forall>recs. res = Inr recs \<longrightarrow> length log = length rest \<and>
             recs = parse_loop self page records @
                    map triple (filter (in_bounds self) (received log))"
          by blast
        have r: "received ((c, reply) # log) = page @ received log"
          using Inr by (simp add: received_def page_of_def)
        show ?thesis
        proof (intro exI [of _ "(c, reply) # log"] conjI)
          show "fetched w' = fetched w @ (c, reply) # log" using l1 f1 by simp
          show "map (\<lambda>(c, reply). retstart c) ((c, reply) # log) =
                  take (length ((c, reply) # log)) (start # rest)"
            using l2 cprops by simp
          show "\<forall>(c, reply) \<in> set ((c, reply) # log). retmax c = step \<and>
             self_env self = Some (webenv c) \<and> self_key self = Some (query_key c) \<and>
             db c = ''nucleotide'' \<and> rettype c = ''gb'' \<and> retmode c = ''text''"
            using l3 cprops by simp
          show "\<forall>recs. res = Inr recs \<longrightarrow>
             length ((c, reply) # log) = length (start # rest) \<and>
             recs = records @ map triple (filter (in_bounds self) (received ((c, reply) # log)))"
            using l4 unfolding r by (simp add: parse_loop_eq)
        qed
      qed
    qed
  qed
qed

lemma fetch_loop_frame:
  "fetch_loop srv self step starts records w = (res, w') \<Longrightarrow>
   stdout w' = stdout w \<and> written w' = written w \<and> Entrez_email w' = Entrez_email w \<and>
   Entrez_api_key w' = Entrez_api_key w \<and> Entrez_tool w' = Entrez_tool w"
proof (induction starts arbitrary: records w)
  case Nil
  then show ?case by auto
next
  case (Cons start rest)
  show ?case
  proof (cases "self_env self")
    case None
    then show ?thesis using Cons.prems by auto
  next
    case (Some e)
    note env = this
    show ?thesis
    proof (cases "self_key self")
      case None
      then show ?thesis using Cons.prems env by auto
    next
      case (Some k)
      define c where "c = \<lparr>db = ''nucleotide'', rettype = ''gb'', retmode = ''text'',
              retstart = start, retmax = step, webenv = e, query_key = k\<rparr>"
      obtain reply w1 where ef: "Entrez_efetch srv c w = (reply, w1)"
        by (cases "Entrez_efetch srv c w")
      note fr = Entrez_efetch_world(2-6) [OF ef]
      show ?thesis
      proof (cases reply)
        case (Inl err)
        then have "w' = w1"
          using Cons.prems env Some ef by (simp add: c_def)
        then show ?thesis using fr by simp
      next
        case (Inr page)
        then have "fetch_loop srv self step rest (parse_loop self page records) w1 = (res, w')"
          using Cons.prems env Some ef by (simp add: c_def)
        from Cons.IH [OF this] show ?thesis using fr by simp
      qed
    qed
  qed
qed

section \<open>The method as a whole\<close>

lemma issued_append: "fetched w' = fetched w @ log \<Longrightarrow> issued w w' = log"
  by (simp add: issued_def)

lemma fetch_and_filter_log:
  assumes "fetch_and_filter srv self max_records w = (res, w')"
    and "self_count self = Some T"
  shows "fetched w' = fetched w @ issued w w'"
    and "map (\<lambda>(c, reply). retstart c) (issued w w') =
           take (length (issued w w')) (py_range 0 (min T max_records) 100)"
    and "\<forall>(c, reply) \<in> set (issued w w'). retmax c = 100 \<and> self_env self = Some (webenv c) \<and>
           self_key self = Some (query_key c) \<and> db c = ''nucleotide'' \<and>
           rettype c = ''gb'' \<and> retmode c = ''text''"
    and "res = Inr recs \<Longrightarrow> length (issued w w') = length (py_range 0 (min T max_records) 100)"
    and "res = Inr recs \<Longrightarrow> recs = map triple (filter (in_bounds self) (received (issued w w')))"
proof -
  have "fetch_loop srv self 100 (py_range 0 (min T max_records) 100) [] w = (res, w')"
    using assms by (simp add: fetch_and_filter_def)
  from fetch_loop_log [OF this] obtain log where
    l: "fetched w' = fetched w @ log"
      "map (\<lambda>(c, reply). retstart c) log = take (length log) (py_range 0 (min T max_records) 100)"
      "\<forall>(c, reply) \<in> set log. retmax c = 100 \<and> self_env self = Some (webenv c) \<and>
        self_key self = Some (query_key c) \<and> db c = ''nucleotide'' \<and>
        rettype c = ''gb'' \<and> retmode c = ''text''"
      "\<forall>recs. res = Inr recs \<longrightarrow> length log = length (py_range 0 (min T max_records) 100) \<and>
        recs = [] @ map triple (filter (in_bounds self) (received log))"
    by blast
  have i: "issued w w' = log" using l(1) by (rule issued_append)
  show "fetched w' = fetched w @ issued w w'" using l(1) i by simp
  show "map (\<lambda>(c, reply). retstart c) (issued w w') =
           take (length (issued w w')) (py_range 0 (min T max_records) 100)"
    using l(2) i by simp
  show "\<forall>(c, reply) \<in> set (issued w w'). retmax c = 100 \<and> self_env self = Some (webenv c) \<and>
           self_key self = Some (query_key c) \<and> db c = ''nucleotide'' \<and>
           rettype c = ''gb'' \<and> retmode c = ''text''"
    using l(3) i by simp
  show "res = Inr recs \<Longrightarrow> length (issued w w') = length (py_range 0 (min T max_records) 100)"
    using l(4) i by simp
  show "res = Inr recs \<Longrightarrow> recs = map triple (filter (in_bounds self) (received (issued w w')))"
    using l(4) i by simp
qed

lemma fetch_and_filter_frame:
  assumes "fetch_and_filter srv self max_records w = (res, w')"
  shows "stdout w' = stdout w" and "written w' = written w"
proof -
  have "stdout w' = stdout w \<and> written w' = written w"
  proof (cases "self_count self")
    case None
    then show ?thesis using assms by (simp add: fetch_and_filter_def)
  next
    case (Some T)
    then have "fetch_loop srv self 100 (py_range 0 (min T max_records) 100) [] w = (res, w')"
      using assms by (simp add: fetch_and_filter_def)
    from fetch_loop_frame [OF this] show ?thesis by simp
  qed
  then show "stdout w' = stdout w" and "written w' = written w" by simp_all
qed

lemma offsets_100:
  "py_range 0 n 100 = map (\<lambda>k. 100 * int k) [0 ..< nat ((n + 99) div 100)]"
  using py_range_closed [of 100 0 n] by (simp add: add.commute)

lemma set_offsets_100: "set (py_range 0 n 100) = {x. 0 \<le> x \<and> x < n \<and> 100 dvd x}"
  using set_py_range [of 100 0 n] by simp

section \<open>Pagination\<close>

lemma fixed_service_run_200:
  "fetch_and_filter (fixed_service 250 []) (searched 0 1000000 250) 200 fresh_world =
     (Inr [], fresh_world\<lparr>fetched := [(page_call 0, Inr []), (page_call 100, Inr [])]\<rparr>)"
  by (simp add: fetch_and_filter_def searched_def py_range_pos_step py_range_pos_empty
        Entrez_efetch_def fixed_service_def fresh_world_def page_call_def)

text \<open>
  C1. With the count \<open>T\<close> that \<open>search\<close> stored and the limit \<open>M\<close>, the offsets that
  \<open>fetch_and_filter\<close> sends are the multiples of 100 below \<open>min T M\<close>, from 0 upwards in
  increasing order, each once, none missing: a run that returns has sent them all, a run
  that an exception ends has sent the first of them. For \<open>T = 250\<close> and \<open>M = 200\<close> the
  offsets are 0 and 100 and no other.
\<close>

theorem pagination_offsets:
  assumes "self_count self = Some T"
    and "fetch_and_filter srv self M w = (res, w')"
  shows "fetched w' = fetched w @ issued w w' \<and>
         map (\<lambda>(c, reply). retstart c) (issued w w') =
           take (length (issued w w'))
             (map (\<lambda>k. 100 * int k) [0 ..< nat ((min T M + 99) div 100)]) \<and>
         (\<forall>recs. res = Inr recs \<longrightarrow>
            map (\<lambda>(c, reply). retstart c) (issued w w') =
              map (\<lambda>k. 100 * int k) [0 ..< nat ((min T M + 99) div 100)] \<and>
            set (map (\<lambda>(c, reply). retstart c) (issued w w')) =
              {x. 0 \<le> x \<and> x < min T M \<and> 100 dvd x} \<and>
            sorted_wrt (<) (map (\<lambda>(c, reply). retstart c) (issued w w')) \<and>
            distinct (map (\<lambda>(c, reply). retstart c) (issued w w')) \<and>
            (T = 250 \<and> M = 200 \<longrightarrow>
               map (\<lambda>(c, reply). retstart c) (issued w w') = [0, 100]))"
proof -
  let ?offs = "map (\<lambda>(c, reply). retstart c) (issued w w')"
  let ?plan = "py_range 0 (min T M) 100"
  note log = fetch_and_filter_log [OF assms(2) assms(1)]
  have pre: "?offs = take (length (issued w w')) ?plan" by (rule log(2))
  have full: "?offs = ?plan" if "res = Inr recs" for recs
  proof -
    have "length (issued w w') = length ?plan" using that by (rule log(4))
    then show ?thesis using pre by simp
  qed
  have plan: "?plan = map (\<lambda>k. 100 * int k) [0 ..< nat ((min T M + 99) div 100)]"
    by (rule offsets_100)
  have s: "sorted_wrt (<) ?plan" by (rule sorted_py_range) simp
  then have d: "distinct ?plan" by (simp add: strict_sorted_iff)
  have st: "set ?plan = {x. 0 \<le> x \<and> x < min T M \<and> 100 dvd x}" by (rule set_offsets_100)
  have ex: "py_range 0 (min 250 200) 100 = [0, 100]"
    by (simp add: py_range_pos_step py_range_pos_empty)
  have "?offs = take (length (issued w w')) (map (\<lambda>k. 100 * int k) [0 ..< nat ((min T M + 99) div 100)])"
    using pre plan by simp
  moreover have "?offs = map (\<lambda>k. 100 * int k) [0 ..< nat ((min T M + 99) div 100)] \<and>
      set ?offs = {x. 0 \<le> x \<and> x < min T M \<and> 100 dvd x} \<and>
      sorted_wrt (<) ?offs \<and> distinct ?offs \<and> (T = 250 \<and> M = 200 \<longrightarrow> ?offs = [0, 100])"
    if "res = Inr recs" for recs
  proof -
    have f: "?offs = ?plan" using that by (rule full)
    show ?thesis unfolding f using plan s d st ex by auto
  qed
  ultimately show ?thesis using log(1) by blast
qed

text \<open>The run for \<open>T = 250\<close>, \<open>M = 200\<close> against a service with empty pages.\<close>

theorem pagination_offsets_witness:
  "self_count (searched 0 1000000 250) = Some 250 \<and>
   fetch_and_filter (fixed_service 250 []) (searched 0 1000000 250) 200 fresh_world =
     (Inr [], fresh_world\<lparr>fetched := [(page_call 0, Inr []), (page_call 100, Inr [])]\<rparr>) \<and>
   map (\<lambda>(c, reply). retstart c)
     (issued fresh_world
        (fresh_world\<lparr>fetched := [(page_call 0, Inr []), (page_call 100, Inr [])]\<rparr>)) = [0, 100]"
proof -
  have c: "self_count (searched 0 1000000 250) = Some 250" by (simp add: searched_def)
  show ?thesis
    using pagination_offsets [OF c fixed_service_run_200] c fixed_service_run_200
    by blast
qed

section \<open>Session, filter and the empty result\<close>

lemma search_result:
  assumes "search srv self0 taxid w0 = (Inr n, self, w)"
  obtains e k where
    "esearch srv \<lparr>s_db = ''nucleotide'', s_term = ''txid'' @ taxid @ ''[Organism]'',
        s_usehistory = ''y'', s_retmax = 0\<rparr> (ncbi w0) = (Inr (e, k, n), ncbi w)"
    "self = self0\<lparr>self_env := Some e, self_key := Some k, self_count := Some n\<rparr>"
    "w = w0\<lparr>ncbi := ncbi w\<rparr>"
  using assms
  by (auto simp: search_def Let_def split: prod.splits sum.splits)

lemma search_failure:
  assumes "search srv self0 taxid w0 = (Inl err, self, w)"
  shows "self = self0"
  using assms
  by (auto simp: search_def Let_def split: prod.splits sum.splits)

lemma fetch_and_filter_unset:
  "self_count self = None \<Longrightarrow>
   fetch_and_filter srv self M w = (Inl (attribute_error ''count''), w)"
  by (simp add: fetch_and_filter_def)

lemma issued_same [simp]: "issued w w = []"
  by (simp add: issued_def)

text \<open>
  C3. Every fetch call of a run carries the \<open>WebEnv\<close> and the \<open>QueryKey\<close> of the reply that
  the preceding \<open>search\<close> stored in the object, the same on every page.
\<close>

theorem session_reused:
  assumes "search srv self0 taxid w0 = (Inr n, self, w)"
    and "fetch_and_filter srv self M w = (res, w')"
  shows "\<exists>e k. esearch srv \<lparr>s_db = ''nucleotide'', s_term = ''txid'' @ taxid @ ''[Organism]'',
             s_usehistory = ''y'', s_retmax = 0\<rparr> (ncbi w0) = (Inr (e, k, n), ncbi w) \<and>
           self_env self = Some e \<and> self_key self = Some k \<and>
           (\<forall>(c, reply) \<in> set (issued w w'). webenv c = e \<and> query_key c = k)"
proof -
  from assms(1) obtain e k where
    r: "esearch srv \<lparr>s_db = ''nucleotide'', s_term = ''txid'' @ taxid @ ''[Organism]'',
        s_usehistory = ''y'', s_retmax = 0\<rparr> (ncbi w0) = (Inr (e, k, n), ncbi w)"
    and s: "self = self0\<lparr>self_env := Some e, self_key := Some k, self_count := Some n\<rparr>"
    by (rule search_result)
  have c: "self_count self = Some n" and e: "self_env self = Some e" and k: "self_key self = Some k"
    using s by simp_all
  have "\<forall>(c, reply) \<in> set (issued w w'). webenv c = e \<and> query_key c = k"
    using fetch_and_filter_log(3) [OF assms(2) c] e k by auto
  then show ?thesis using r e k by blast
qed

lemma fixed_service_search:
  "search (fixed_service n page) (fst (NCBIRetriever_init [] [] lo hi fresh_world)) ''9606''
     fresh_world = (Inr n, searched lo hi n, fresh_world)"
  by (simp add: search_def fixed_service_def NCBIRetriever_init_def fresh_world_def searched_def)

theorem session_reused_witness:
  "search (fixed_service 250 []) (fst (NCBIRetriever_init [] [] 0 1000000 fresh_world)) ''9606''
     fresh_world = (Inr 250, searched 0 1000000 250, fresh_world) \<and>
   fetch_and_filter (fixed_service 250 []) (searched 0 1000000 250) 200 fresh_world =
     (Inr [], fresh_world\<lparr>fetched := [(page_call 0, Inr []), (page_call 100, Inr [])]\<rparr>) \<and>
   map (\<lambda>(c, reply). (webenv c, query_key c))
     (issued fresh_world
        (fresh_world\<lparr>fetched := [(page_call 0, Inr []), (page_call 100, Inr [])]\<rparr>)) =
     [(''MCID_1'', ''1''), (''MCID_1'', ''1'')]"
proof -
  let ?W = "fresh_world\<lparr>fetched := [(page_call 0, Inr []), (page_call 100, Inr [])]\<rparr>"
  from session_reused [OF fixed_service_search fixed_service_run_200]
  obtain e k where a: "self_env (searched 0 1000000 250) = Some e"
      "self_key (searched 0 1000000 250) = Some k"
    and b: "\<forall>(c, reply) \<in> set (issued fresh_world ?W). webenv c = e \<and> query_key c = k"
    by blast
  from a have ek: "e = ''MCID_1''" "k = ''1''" by (simp_all add: searched_def)
  have i: "issued fresh_world ?W = [(page_call 0, Inr []), (page_call 100, Inr [])]"
    by (simp add: issued_def fresh_world_def)
  have "map (\<lambda>(c, reply). (webenv c, query_key c)) (issued fresh_world ?W) =
     [(''MCID_1'', ''1''), (''MCID_1'', ''1'')]"
    using b unfolding i ek by simp
  then show ?thesis using fixed_service_search fixed_service_run_200 by blast
qed

text \<open>
  C4. Of the records that the pages of a run delivered, the result holds the tuple
  (identifier, length, description) of exactly those with \<open>min_len \<le> length \<le> max_len\<close>,
  both bounds included, in the order of delivery; no tuple with a length outside the bounds
  is in the result.
\<close>

theorem filter_correct:
  assumes "fetch_and_filter srv self M w = (Inr recs, w')"
  shows "recs = map (\<lambda>r. (r_id r, int (length (r_seq r)), r_description r))
                  (filter (\<lambda>r. self_min_len self \<le> int (length (r_seq r)) \<and>
                                int (length (r_seq r)) \<le> self_max_len self)
                     (received (issued w w'))) \<and>
         (\<forall>r \<in> set (received (issued w w')).
            (r_id r, int (length (r_seq r)), r_description r) \<in> set recs \<longleftrightarrow>
            self_min_len self \<le> int (length (r_seq r)) \<and>
            int (length (r_seq r)) \<le> self_max_len self) \<and>
         (\<forall>t \<in> set recs. self_min_len self \<le> Length t \<and> Length t \<le> self_max_len self)"
proof -
  obtain T where T: "self_count self = Some T"
    using assms by (cases "self_count self") (simp_all add: fetch_and_filter_def)
  have r: "recs = map triple (filter (in_bounds self) (received (issued w w')))"
    using fetch_and_filter_log(5) [OF assms T] by simp
  have t: "triple = (\<lambda>r. (r_id r, int (length (r_seq r)), r_description r))"
    by (rule ext) (simp add: triple_def)
  have b: "in_bounds self = (\<lambda>r. self_min_len self \<le> int (length (r_seq r)) \<and>
                                int (length (r_seq r)) \<le> self_max_len self)"
    by (rule ext) (simp add: in_bounds_def)
  have 1: "recs = map (\<lambda>r. (r_id r, int (length (r_seq r)), r_description r))
                  (filter (\<lambda>r. self_min_len self \<le> int (length (r_seq r)) \<and>
                                int (length (r_seq r)) \<le> self_max_len self)
                     (received (issued w w')))"
    using r unfolding t b .
  have 2: "\<forall>r \<in> set (received (issued w w')).
            (r_id r, int (length (r_seq r)), r_description r) \<in> set recs \<longleftrightarrow>
            self_min_len self \<le> int (length (r_seq r)) \<and>
            int (length (r_seq r)) \<le> self_max_len self"
    unfolding 1 by auto
  have 3: "\<forall>t \<in> set recs. self_min_len self \<le> Length t \<and> Length t \<le> self_max_len self"
    unfolding 1 by (auto simp: Length_def)
  show ?thesis using 1 2 3 by blast
qed

lemma fixed_service_run_example:
  "fetch_and_filter
     (fixed_service 3 [rec_of_length ''A'' 50, rec_of_length ''B'' 2000, rec_of_length ''C'' 800])
     (searched 100 1500 3) 200 fresh_world =
     (Inr [(''C'', 800, ''demo'')],
      fresh_world\<lparr>fetched := [(page_call 0,
        Inr [rec_of_length ''A'' 50, rec_of_length ''B'' 2000, rec_of_length ''C'' 800])]\<rparr>)"
  by (simp add: fetch_and_filter_def searched_def py_range_pos_step py_range_pos_empty
        Entrez_efetch_def fixed_service_def fresh_world_def page_call_def rec_of_length_def)

theorem filter_correct_witness:
  "fetch_and_filter
     (fixed_service 3 [rec_of_length ''A'' 50, rec_of_length ''B'' 2000, rec_of_length ''C'' 800])
     (searched 100 1500 3) 200 fresh_world =
     (Inr [(''C'', 800, ''demo'')],
      fresh_world\<lparr>fetched := [(page_call 0,
        Inr [rec_of_length ''A'' 50, rec_of_length ''B'' 2000, rec_of_length ''C'' 800])]\<rparr>) \<and>
   received (issued fresh_world (fresh_world\<lparr>fetched := [(page_call 0,
        Inr [rec_of_length ''A'' 50, rec_of_length ''B'' 2000, rec_of_length ''C'' 800])]\<rparr>)) =
     [rec_of_length ''A'' 50, rec_of_length ''B'' 2000, rec_of_length ''C'' 800] \<and>
   self_min_len (searched 100 1500 3) \<le> Length (''C'', 800, ''demo'') \<and>
   Length (''C'', 800, ''demo'') \<le> self_max_len (searched 100 1500 3)"
proof -
  have "received (issued fresh_world (fresh_world\<lparr>fetched := [(page_call 0,
        Inr [rec_of_length ''A'' 50, rec_of_length ''B'' 2000, rec_of_length ''C'' 800])]\<rparr>)) =
     [rec_of_length ''A'' 50, rec_of_length ''B'' 2000, rec_of_length ''C'' 800]"
    by (simp add: received_def issued_def fresh_world_def page_of_def)
  then show ?thesis
    using filter_correct [OF fixed_service_run_example] fixed_service_run_example by simp
qed

text \<open>
  C6. With a stored count of 0, \<open>fetch_and_filter\<close> returns the empty list for every limit
  and makes no fetch call: the world is as before.
\<close>

theorem zero_matches:
  assumes "self_count self = Some 0"
  shows "fetch_and_filter srv self M w = (Inr [], w) \<and>
         issued w (snd (fetch_and_filter srv self M w)) = []"
proof -
  have "py_range 0 (min 0 M) 100 = []"
    by (rule py_range_pos_empty) simp_all
  then have "fetch_and_filter srv self M w = (Inr [], w)"
    using assms by (simp add: fetch_and_filter_def)
  then show ?thesis by simp
qed

theorem zero_matches_witness:
  "search (fixed_service 0 []) (fst (NCBIRetriever_init [] [] 0 1000000 fresh_world)) ''9606''
     fresh_world = (Inr 0, searched 0 1000000 0, fresh_world) \<and>
   self_count (searched 0 1000000 0) = Some 0 \<and>
   fetch_and_filter down_service (searched 0 1000000 0) 200 fresh_world = (Inr [], fresh_world)"
proof -
  have c: "self_count (searched 0 1000000 0) = Some 0" by (simp add: searched_def)
  show ?thesis
    using zero_matches [OF c, of down_service 200 fresh_world] c fixed_service_search by blast
qed

section \<open>The missing session and the page size\<close>

text \<open>
  C7, as the source has it. Before \<open>search\<close> has stored a count (a new object, or one whose
  only searches raised), \<open>fetch_and_filter\<close> ends at once with Python's \<open>AttributeError\<close> for
  the attribute \<open>count\<close>: it returns nothing and makes no fetch call. The source defines no
  exception class of its own.
\<close>

theorem no_session_attribute_error:
  assumes "self_count self = None"
  shows "fetch_and_filter srv self M w = (Inl (attribute_error ''count''), w) \<and>
         signals (fst (fetch_and_filter srv self M w)) ''AttributeError'' \<and>
         issued w (snd (fetch_and_filter srv self M w)) = [] \<and>
         self_count (fst (NCBIRetriever_init email api_key lo hi w0)) = None \<and>
         (\<forall>err self' w1 taxid. search srv self taxid w = (Inl err, self', w1) \<longrightarrow>
            self_count self' = None)"
proof -
  have "fetch_and_filter srv self M w = (Inl (attribute_error ''count''), w)"
    using assms by (rule fetch_and_filter_unset)
  moreover have "self_count (fst (NCBIRetriever_init email api_key lo hi w0)) = None"
    by (simp add: NCBIRetriever_init_def)
  moreover have "self_count self' = None"
    if "search srv self taxid w = (Inl err, self', w1)" for err self' w1 taxid
    using search_failure [OF that] assms by simp
  ultimately show ?thesis
    by (simp add: signals_def attribute_error_def)
qed

theorem no_session_attribute_error_witness:
  "self_count (fst (NCBIRetriever_init [] [] 0 1000000 fresh_world)) = None \<and>
   fetch_and_filter (fixed_service 250 []) (fst (NCBIRetriever_init [] [] 0 1000000 fresh_world))
     200 fresh_world = (Inl (attribute_error ''count''), fresh_world) \<and>
   search down_service (fst (NCBIRetriever_init [] [] 0 1000000 fresh_world)) ''9606'' fresh_world =
     (Inl (PyError ''HTTPError'' ''502''), fst (NCBIRetriever_init [] [] 0 1000000 fresh_world),
      fresh_world)"
proof -
  have c: "self_count (fst (NCBIRetriever_init [] [] 0 1000000 fresh_world)) = None"
    by (simp add: NCBIRetriever_init_def)
  have s: "search down_service (fst (NCBIRetriever_init [] [] 0 1000000 fresh_world)) ''9606''
      fresh_world =
     (Inl (PyError ''HTTPError'' ''502''), fst (NCBIRetriever_init [] [] 0 1000000 fresh_world),
      fresh_world)"
    by (simp add: search_def down_service_def fresh_world_def)
  show ?thesis
    using no_session_attribute_error [OF c, of "fixed_service 250 []" 200 fresh_world] c s
    by blast
qed

text \<open>
  C7 as the specification states it fails: on a new object the exception is an
  \<open>AttributeError\<close>, not a \<open>SequenceError\<close>.
\<close>

theorem no_session_counterexample:
  "\<not> signals (fst (fetch_and_filter (fixed_service 250 [])
                    (fst (NCBIRetriever_init [] [] 0 1000000 fresh_world)) 200 fresh_world))
       ''SequenceError''"
  by (simp add: fetch_and_filter_def NCBIRetriever_init_def signals_def attribute_error_def)

text \<open>
  C9. Every fetch call of a run asks for 100 records, the last one too: the page size is
  not cut down to what is left of \<open>min T M\<close> after the offset, also where that is less
  than 100.
\<close>

theorem page_size_constant:
  assumes "fetch_and_filter srv self M w = (res, w')"
  shows "\<forall>(c, reply) \<in> set (issued w w'). retmax c = 100 \<and>
           (\<forall>T. self_count self = Some T \<longrightarrow> min T M - retstart c < 100 \<longrightarrow>
                retmax c \<noteq> min T M - retstart c)"
proof (cases "self_count self")
  case None
  then have "w' = w" using assms by (simp add: fetch_and_filter_def)
  then show ?thesis by simp
next
  case (Some T)
  show ?thesis
    using fetch_and_filter_log(3) [OF assms Some] by auto
qed

lemma fixed_service_run_150:
  "fetch_and_filter (fixed_service 250 []) (searched 0 1000000 250) 150 fresh_world =
     (Inr [], fresh_world\<lparr>fetched := [(page_call 0, Inr []), (page_call 100, Inr [])]\<rparr>)"
  by (simp add: fetch_and_filter_def searched_def py_range_pos_step py_range_pos_empty
        Entrez_efetch_def fixed_service_def fresh_world_def page_call_def)

theorem page_size_constant_witness:
  "fetch_and_filter (fixed_service 250 []) (searched 0 1000000 250) 150 fresh_world =
     (Inr [], fresh_world\<lparr>fetched := [(page_call 0, Inr []), (page_call 100, Inr [])]\<rparr>) \<and>
   issued fresh_world
     (fresh_world\<lparr>fetched := [(page_call 0, Inr []), (page_call 100, Inr [])]\<rparr>) =
     [(page_call 0, Inr []), (page_call 100, Inr [])] \<and>
   retstart (page_call 100) = 100 \<and> min 250 150 - retstart (page_call 100) = (50::int) \<and>
   retmax (page_call 0) = 100 \<and> retmax (page_call 100) = 100"
proof -
  let ?W = "fresh_world\<lparr>fetched := [(page_call 0, Inr []), (page_call 100, Inr [])]\<rparr>"
  have i: "issued fresh_world ?W = [(page_call 0, Inr []), (page_call 100, Inr [])]"
    by (simp add: issued_def fresh_world_def)
  have "retmax (page_call 0) = 100 \<and> retmax (page_call 100) = 100"
    using page_size_constant [OF fixed_service_run_150] unfolding i by simp
  moreover have "retstart (page_call 100) = 100" by (simp add: page_call_def)
  ultimately show ?thesis using fixed_service_run_150 i by simp
qed

lemma honest_service_run_150:
  "fetch_and_filter (honest_service (replicate 250 (rec_of_length ''X'' 10)))
     (searched 0 1000000 250) 150 fresh_world =
     (Inr (replicate 100 (''X'', 10, ''demo'') @ replicate 100 (''X'', 10, ''demo'')),
      fresh_world\<lparr>fetched :=
        [(page_call 0, Inr (replicate 100 (rec_of_length ''X'' 10))),
         (page_call 100, Inr (replicate 100 (rec_of_length ''X'' 10)))]\<rparr>)"
  by (simp add: fetch_and_filter_def searched_def py_range_pos_step py_range_pos_empty
        Entrez_efetch_def honest_service_def fresh_world_def page_call_def
        parse_loop_eq in_bounds_def triple_def rec_of_length_def)

text \<open>
  C2 fails on the code. Count 250, limit 150, a service that holds 250 records and answers
  each call with the window asked for: the two calls (offsets 0 and 100, 100 records each)
  fetch 200 records, and all 200 are returned, more than \<open>min 250 150 = 150\<close>.
\<close>

theorem fetched_exceeds_limit:
  "length (received (issued fresh_world
     (snd (fetch_and_filter (honest_service (replicate 250 (rec_of_length ''X'' 10)))
             (searched 0 1000000 250) 150 fresh_world)))) = 200 \<and>
   (case fst (fetch_and_filter (honest_service (replicate 250 (rec_of_length ''X'' 10)))
             (searched 0 1000000 250) 150 fresh_world) of
      Inl e \<Rightarrow> False | Inr recs \<Rightarrow> length recs = 200) \<and>
   \<not> (200 \<le> min (250::int) 150)"
  unfolding honest_service_run_150
  by (simp add: received_def issued_def fresh_world_def page_of_def)

section \<open>The sorted table\<close>

lemma nth_positions: "mset (map (\<lambda>i. xs ! i) a) = mset xs" if "mset a = mset [0 ..< length xs]"
proof -
  have "mset (map (\<lambda>i. xs ! i) a) = image_mset (\<lambda>i. xs ! i) (mset a)" by simp
  also have "\<dots> = mset (map (\<lambda>i. xs ! i) [0 ..< length xs])" unfolding that by simp
  also have "\<dots> = mset xs" by (simp add: map_nth)
  finally show ?thesis .
qed

lemma argsort_mset: "mset (argsort tie items) = mset [0 ..< length items]"
  by (simp add: argsort_def)

lemma argsort_set: "set (argsort tie items) = {0 ..< length items}"
  by (simp add: argsort_def)

lemma argsort_sorted: "sorted (map (\<lambda>i. items ! i) (argsort tie items))"
  unfolding argsort_def by (rule sorted_sort_key)

lemma nargsort_False:
  "nargsort tie False items =
     rev (map (\<lambda>j. rev [0 ..< length items] ! j) (argsort tie (rev items)))"
  by (simp add: nargsort_def Let_def)

lemma nargsort_True:
  "nargsort tie True items = map (\<lambda>j. [0 ..< length items] ! j) (argsort tie items)"
  by (simp add: nargsort_def Let_def)

lemma nargsort_mset: "mset (nargsort tie ascending items) = mset [0 ..< length items]"
proof (cases ascending)
  case True
  have "mset (map (\<lambda>j. [0 ..< length items] ! j) (argsort tie items)) = mset [0 ..< length items]"
    by (rule nth_positions) (simp add: argsort_mset)
  then show ?thesis using True by (simp add: nargsort_True)
next
  case False
  have "mset (map (\<lambda>j. rev [0 ..< length items] ! j) (argsort tie (rev items))) =
        mset (rev [0 ..< length items])"
    by (rule nth_positions) (simp add: argsort_mset)
  then show ?thesis using False by (simp add: nargsort_False)
qed

lemma sort_values_mset: "mset (sort_values tie ascending df) = mset df"
  unfolding sort_values_def by (rule nth_positions) (simp add: nargsort_mset)

lemma save_csv_result:
  "save_csv tie data filename w =
     (sort_values tie False data,
      w\<lparr>written := written w @
          [(filename, CSV [''Accession'', ''Length'', ''Description''] (sort_values tie False data))]\<rparr>)"
  by (simp add: save_csv_def DataFrame_def Let_def)

lemma sort_values_descending:
  "sorted_wrt (\<lambda>a b. Length b \<le> Length a) (sort_values tie False df)"
proof -
  let ?ks = "map Length df"
  let ?n = "length df"
  let ?a = "argsort tie (rev ?ks)"
  have r: "\<forall>j \<in> set ?a. j < ?n" by (simp add: argsort_set)
  have "map Length (sort_values tie False df) =
        rev (map (\<lambda>j. Length (df ! (rev [0 ..< ?n] ! j))) ?a)"
    by (simp add: sort_values_def nargsort_False rev_map o_def)
  also have "map (\<lambda>j. Length (df ! (rev [0 ..< ?n] ! j))) ?a = map (\<lambda>j. rev ?ks ! j) ?a"
    by (rule map_cong) (use r in \<open>auto simp: rev_nth\<close>)
  finally have "map Length (sort_values tie False df) = rev (map (\<lambda>j. rev ?ks ! j) ?a)" .
  moreover have "sorted (map (\<lambda>j. rev ?ks ! j) ?a)" by (rule argsort_sorted)
  ultimately have "sorted_wrt (\<lambda>a b. b \<le> a) (map Length (sort_values tie False df))"
    by (simp add: sorted_wrt_rev)
  then show ?thesis by (simp add: sorted_wrt_map)
qed

lemma four_rows_keys: "map Length four_rows = [120, 500, 120, 300]"
  by (simp add: four_rows_def Length_def)

lemma upt_4: "[0 ..< 4] = [0, 1, 2, 3]"
  by (simp add: upt_rec)

lemma nargsort_four_keep: "nargsort keep_ties False [120, 500, 120, 300] = [1, 3, 0, 2]"
  by (simp add: nargsort_False argsort_def keep_ties_def upt_4)

lemma nargsort_four_flip: "nargsort flip_ties False [120, 500, 120, 300] = [1, 3, 2, 0]"
  by (simp add: nargsort_False argsort_def flip_ties_def upt_4)

lemma sort_values_four_keep:
  "sort_values keep_ties False four_rows =
     [(''B'', 500, ''b''), (''D'', 300, ''d''), (''A'', 120, ''a''), (''C'', 120, ''c'')]"
  by (simp add: sort_values_def four_rows_keys nargsort_four_keep) (simp add: four_rows_def)

lemma sort_values_four_flip:
  "sort_values flip_ties False four_rows =
     [(''B'', 500, ''b''), (''D'', 300, ''d''), (''C'', 120, ''c''), (''A'', 120, ''a'')]"
  by (simp add: sort_values_def four_rows_keys nargsort_four_flip) (simp add: four_rows_def)

lemma sort_values_four_ascending:
  "map Length (sort_values keep_ties True four_rows) = [120, 120, 300, 500]"
  by (simp add: sort_values_def four_rows_keys nargsort_True argsort_def keep_ties_def upt_4)
     (simp add: four_rows_def Length_def)

text \<open>
  C10. Whatever the input list and whichever of two equal lengths the library's sort puts
  first, the rows of the table that \<open>save_csv\<close> returns, and writes to the file, are the
  input tuples in another order: none dropped, none twice, none changed.
\<close>

theorem save_csv_permutation:
  "mset (fst (save_csv tie data filename w)) = mset data \<and>
   length (fst (save_csv tie data filename w)) = length data \<and>
   set (fst (save_csv tie data filename w)) = set data \<and>
   written (snd (save_csv tie data filename w)) =
     written w @ [(filename, CSV [''Accession'', ''Length'', ''Description'']
                               (fst (save_csv tie data filename w)))]"
proof -
  have m: "mset (sort_values tie False data) = mset data"
    by (rule sort_values_mset)
  have "length (sort_values tie False data) = length data"
    using m by (rule mset_eq_length)
  moreover have "set (sort_values tie False data) = set data"
    using m by (rule mset_eq_setD)
  ultimately show ?thesis using m by (simp add: save_csv_result)
qed

section \<open>The command line run\<close>

lemma print_world [simp]:
  "stdout (print line w) = stdout w @ [line]" "written (print line w) = written w"
  "fetched (print line w) = fetched w" "ncbi (print line w) = ncbi w"
  by (simp_all add: print_def)

lemma init_frame:
  assumes "NCBIRetriever_init email api_key lo hi w = (r0, w0)"
  shows "stdout w0 = stdout w" and "written w0 = written w"
  using assms by (auto simp: NCBIRetriever_init_def)

lemma search_frame:
  assumes "search srv self taxid w = (res, self', w')"
  shows "stdout w' = stdout w" and "written w' = written w"
  using assms by (auto simp: search_def Let_def split: prod.splits sum.splits)

lemma save_csv_plot_frame:
  "stdout (plot_lengths df output w) = stdout w"
  "written (plot_lengths df output w) = written w @ [(output, PNG (map Accession df) (map Length df))]"
  "stdout (snd (save_csv tie data filename w)) = stdout w"
  by (simp_all add: plot_lengths_def save_csv_result)

lemma main_no_records:
  assumes "NCBIRetriever_init (arg_email a) (arg_api_key a) (arg_min_len a) (arg_max_len a) w =
             (r0, w0)"
    and "search srv r0 (arg_taxid a) (print (''Searching TaxID '' @ arg_taxid a @ ''...'') w0) =
             (Inr 0, r1, w1)"
  shows "main srv tie a w = (Inr (), print ''No records found.'' w1)"
  using assms by (simp add: main_def Let_def)

lemma main_none_in_range:
  assumes "NCBIRetriever_init (arg_email a) (arg_api_key a) (arg_min_len a) (arg_max_len a) w =
             (r0, w0)"
    and "search srv r0 (arg_taxid a) (print (''Searching TaxID '' @ arg_taxid a @ ''...'') w0) =
             (Inr n, r1, w1)"
    and "n \<noteq> 0"
    and "fetch_and_filter srv r1 (arg_limit a) (print ''Fetching & filtering...'' w1) =
             (Inr [], w2)"
  shows "main srv tie a w = (Inr (), print ''No records within length range.'' w2)"
  using assms by (simp add: main_def Let_def)

lemma main_saved:
  assumes "NCBIRetriever_init (arg_email a) (arg_api_key a) (arg_min_len a) (arg_max_len a) w =
             (r0, w0)"
    and "search srv r0 (arg_taxid a) (print (''Searching TaxID '' @ arg_taxid a @ ''...'') w0) =
             (Inr n, r1, w1)"
    and "n \<noteq> 0"
    and "fetch_and_filter srv r1 (arg_limit a) (print ''Fetching & filtering...'' w1) =
             (Inr data, w2)"
    and "data \<noteq> []"
  shows "main srv tie a w =
     (Inr (),
      print (''Saved plot: '' @ ''taxid_'' @ arg_taxid a @ ''_plot.png'')
        (print (''Saved CSV: '' @ ''taxid_'' @ arg_taxid a @ ''_filtered.csv'')
           (plot_lengths (sort_values tie False data) (''taxid_'' @ arg_taxid a @ ''_plot.png'')
              (snd (save_csv tie data (''taxid_'' @ arg_taxid a @ ''_filtered.csv'') w2)))))"
  using assms by (simp add: main_def Let_def save_csv_result)

text \<open>
  C8. After a search that returns a count: with the count 0 the run prints
  \<open>No records found.\<close> and returns; with another count and an empty result of the filter
  it prints \<open>No records within length range.\<close> and returns; both times the exit status is 0
  and no file is written. With another count and a result that is not empty it writes
  \<open>taxid_{taxid}_filtered.csv\<close>, then \<open>taxid_{taxid}_plot.png\<close>, and prints the two names.
\<close>

theorem main_exit_behaviour:
  assumes "NCBIRetriever_init (arg_email a) (arg_api_key a) (arg_min_len a) (arg_max_len a) w =
             (r0, w0)"
    and "search srv r0 (arg_taxid a) (print (''Searching TaxID '' @ arg_taxid a @ ''...'') w0) =
             (Inr n, r1, w1)"
  shows "(n = 0 \<longrightarrow>
            fst (main srv tie a w) = Inr () \<and>
            exit_code (fst (main srv tie a w)) = 0 \<and>
            stdout (snd (main srv tie a w)) =
              stdout w @ [''Searching TaxID '' @ arg_taxid a @ ''...'', ''No records found.''] \<and>
            written (snd (main srv tie a w)) = written w) \<and>
         (n \<noteq> 0 \<longrightarrow>
            (\<forall>data w2.
               fetch_and_filter srv r1 (arg_limit a) (print ''Fetching & filtering...'' w1) =
                 (Inr data, w2) \<longrightarrow>
               (data = [] \<longrightarrow>
                  fst (main srv tie a w) = Inr () \<and>
                  exit_code (fst (main srv tie a w)) = 0 \<and>
                  stdout (snd (main srv tie a w)) =
                    stdout w @ [''Searching TaxID '' @ arg_taxid a @ ''...'',
                                ''Fetching & filtering...'',
                                ''No records within length range.''] \<and>
                  written (snd (main srv tie a w)) = written w) \<and>
               (data \<noteq> [] \<longrightarrow>
                  fst (main srv tie a w) = Inr () \<and>
                  stdout (snd (main srv tie a w)) =
                    stdout w @ [''Searching TaxID '' @ arg_taxid a @ ''...'',
                                ''Fetching & filtering...'',
                                ''Saved CSV: '' @ ''taxid_'' @ arg_taxid a @ ''_filtered.csv'',
                                ''Saved plot: '' @ ''taxid_'' @ arg_taxid a @ ''_plot.png''] \<and>
                  written (snd (main srv tie a w)) =
                    written w @
                    [(''taxid_'' @ arg_taxid a @ ''_filtered.csv'',
                      CSV [''Accession'', ''Length'', ''Description''] (sort_values tie False data)),
                     (''taxid_'' @ arg_taxid a @ ''_plot.png'',
                      PNG (map Accession (sort_values tie False data))
                          (map Length (sort_values tie False data)))])))"
proof -
  note i = init_frame [OF assms(1)]
  note s = search_frame [OF assms(2)]
  have out1: "stdout w1 = stdout w @ [''Searching TaxID '' @ arg_taxid a @ ''...'']"
    and wr1: "written w1 = written w"
    using i s by simp_all
  have A: "fst (main srv tie a w) = Inr () \<and>
            exit_code (fst (main srv tie a w)) = 0 \<and>
            stdout (snd (main srv tie a w)) =
              stdout w @ [''Searching TaxID '' @ arg_taxid a @ ''...'', ''No records found.''] \<and>
            written (snd (main srv tie a w)) = written w"
    if "n = 0"
    using main_no_records [OF assms(1) assms(2) [unfolded that], of tie] out1 wr1
    by (simp add: exit_code_def)
  have B: "fst (main srv tie a w) = Inr () \<and>
                  exit_code (fst (main srv tie a w)) = 0 \<and>
                  stdout (snd (main srv tie a w)) =
                    stdout w @ [''Searching TaxID '' @ arg_taxid a @ ''...'',
                                ''Fetching & filtering...'',
                                ''No records within length range.''] \<and>
                  written (snd (main srv tie a w)) = written w"
    if "n \<noteq> 0"
      and f: "fetch_and_filter srv r1 (arg_limit a) (print ''Fetching & filtering...'' w1) =
                 (Inr data, w2)"
      and "data = []"
    for data w2
  proof -
    note ff = fetch_and_filter_frame [OF f]
    show ?thesis
      using main_none_in_range [OF assms(1) assms(2) that(1) f [unfolded that(3)], of tie]
        out1 wr1 ff
      by (simp add: exit_code_def)
  qed
  have C: "fst (main srv tie a w) = Inr () \<and>
                  stdout (snd (main srv tie a w)) =
                    stdout w @ [''Searching TaxID '' @ arg_taxid a @ ''...'',
                                ''Fetching & filtering...'',
                                ''Saved CSV: '' @ ''taxid_'' @ arg_taxid a @ ''_filtered.csv'',
                                ''Saved plot: '' @ ''taxid_'' @ arg_taxid a @ ''_plot.png''] \<and>
                  written (snd (main srv tie a w)) =
                    written w @
                    [(''taxid_'' @ arg_taxid a @ ''_filtered.csv'',
                      CSV [''Accession'', ''Length'', ''Description''] (sort_values tie False data)),
                     (''taxid_'' @ arg_taxid a @ ''_plot.png'',
                      PNG (map Accession (sort_values tie False data))
                          (map Length (sort_values tie False data)))]"
    if "n \<noteq> 0"
      and f: "fetch_and_filter srv r1 (arg_limit a) (print ''Fetching & filtering...'' w1) =
                 (Inr data, w2)"
      and "data \<noteq> []"
    for data w2
  proof -
    note ff = fetch_and_filter_frame [OF f]
    show ?thesis
      using main_saved [OF assms(1) assms(2) that(1) f that(3), of tie] out1 wr1 ff
      by (simp add: save_csv_result plot_lengths_def)
  qed
  show ?thesis using A B C by blast
qed

lemma demo_search:
  "search (fixed_service n page)
     (fst (NCBIRetriever_init (arg_email demo_args) (arg_api_key demo_args)
             (arg_min_len demo_args) (arg_max_len demo_args) fresh_world))
     (arg_taxid demo_args)
     (print (''Searching TaxID '' @ arg_taxid demo_args @ ''...'')
        (snd (NCBIRetriever_init (arg_email demo_args) (arg_api_key demo_args)
             (arg_min_len demo_args) (arg_max_len demo_args) fresh_world))) =
   (Inr n, searched 100 1500 n,
    print (''Searching TaxID '' @ arg_taxid demo_args @ ''...'')
        (snd (NCBIRetriever_init (arg_email demo_args) (arg_api_key demo_args)
             (arg_min_len demo_args) (arg_max_len demo_args) fresh_world)))"
  by (simp add: search_def fixed_service_def NCBIRetriever_init_def searched_def demo_args_def
        print_def fresh_world_def)

lemma demo_fetch:
  "fst (fetch_and_filter (fixed_service 3 page) (searched 100 1500 3) (arg_limit demo_args) w) =
     Inr (map triple (filter (in_bounds (searched 100 1500 3)) page))"
  by (simp add: fetch_and_filter_def searched_def py_range_pos_step py_range_pos_empty
        Entrez_efetch_def fixed_service_def demo_args_def parse_loop_eq split: prod.splits)

theorem main_exit_behaviour_witness:
  "stdout (snd (main (fixed_service 0 []) keep_ties demo_args fresh_world)) =
     [''Searching TaxID 9606...'', ''No records found.''] \<and>
   written (snd (main (fixed_service 0 []) keep_ties demo_args fresh_world)) = [] \<and>
   stdout (snd (main (fixed_service 3 [rec_of_length ''A'' 50]) keep_ties demo_args
                  fresh_world)) =
     [''Searching TaxID 9606...'', ''Fetching & filtering...'',
      ''No records within length range.''] \<and>
   written (snd (main (fixed_service 3 [rec_of_length ''A'' 50]) keep_ties demo_args
                  fresh_world)) = [] \<and>
   stdout (snd (main (fixed_service 3 [rec_of_length ''A'' 50, rec_of_length ''B'' 2000,
                        rec_of_length ''C'' 800]) keep_ties demo_args fresh_world)) =
     [''Searching TaxID 9606...'', ''Fetching & filtering...'',
      ''Saved CSV: taxid_9606_filtered.csv'', ''Saved plot: taxid_9606_plot.png''] \<and>
   written (snd (main (fixed_service 3 [rec_of_length ''A'' 50, rec_of_length ''B'' 2000,
                        rec_of_length ''C'' 800]) keep_ties demo_args fresh_world)) =
     [(''taxid_9606_filtered.csv'',
       CSV [''Accession'', ''Length'', ''Description''] [(''C'', 800, ''demo'')]),
      (''taxid_9606_plot.png'', PNG [''C''] [800])]"
proof -
  let ?init = "NCBIRetriever_init (arg_email demo_args) (arg_api_key demo_args)
             (arg_min_len demo_args) (arg_max_len demo_args) fresh_world"
  let ?w1 = "print (''Searching TaxID '' @ arg_taxid demo_args @ ''...'') (snd ?init)"
  let ?p1 = "[rec_of_length ''A'' 50]"
  let ?p3 = "[rec_of_length ''A'' 50, rec_of_length ''B'' 2000, rec_of_length ''C'' 800]"
  have i: "?init = (fst ?init, snd ?init)" by simp
  have t: "arg_taxid demo_args = ''9606''" by (simp add: demo_args_def)
  have e: "stdout fresh_world = []" "written fresh_world = []" by (simp_all add: fresh_world_def)
  have f1: "fetch_and_filter (fixed_service 3 ?p1) (searched 100 1500 3) (arg_limit demo_args)
              (print ''Fetching & filtering...'' ?w1) =
            (Inr [], snd (fetch_and_filter (fixed_service 3 ?p1) (searched 100 1500 3)
              (arg_limit demo_args) (print ''Fetching & filtering...'' ?w1)))"
    using demo_fetch [of ?p1 "print ''Fetching & filtering...'' ?w1"]
    by (simp add: prod_eq_iff in_bounds_def searched_def rec_of_length_def)
  have f3: "fetch_and_filter (fixed_service 3 ?p3) (searched 100 1500 3) (arg_limit demo_args)
              (print ''Fetching & filtering...'' ?w1) =
            (Inr [(''C'', 800, ''demo'')],
             snd (fetch_and_filter (fixed_service 3 ?p3) (searched 100 1500 3)
              (arg_limit demo_args) (print ''Fetching & filtering...'' ?w1)))"
    using demo_fetch [of ?p3 "print ''Fetching & filtering...'' ?w1"]
    by (simp add: prod_eq_iff in_bounds_def triple_def searched_def rec_of_length_def)
  have sv: "sort_values keep_ties False [(''C'', 800, ''demo'')] = [(''C'', 800, ''demo'')]"
    by (simp add: sort_values_def nargsort_False argsort_def keep_ties_def)
  have n3: "(3::int) \<noteq> 0" by simp
  have ne: "[(''C'', 800::int, ''demo'')] \<noteq> []" by simp
  note A = main_exit_behaviour [OF i demo_search [of 0 "[]"], of keep_ties]
  note B = main_exit_behaviour [OF i demo_search [of 3 ?p1], of keep_ties]
  note C = main_exit_behaviour [OF i demo_search [of 3 ?p3], of keep_ties]
  have a: "stdout (snd (main (fixed_service 0 []) keep_ties demo_args fresh_world)) =
     [''Searching TaxID 9606...'', ''No records found.''] \<and>
   written (snd (main (fixed_service 0 []) keep_ties demo_args fresh_world)) = []"
    using A by (simp add: t e)
  have b: "stdout (snd (main (fixed_service 3 ?p1) keep_ties demo_args fresh_world)) =
     [''Searching TaxID 9606...'', ''Fetching & filtering...'',
      ''No records within length range.''] \<and>
   written (snd (main (fixed_service 3 ?p1) keep_ties demo_args fresh_world)) = []"
    using B [THEN conjunct2, THEN mp, OF n3, THEN spec, THEN spec, THEN mp, OF f1,
             THEN conjunct1, THEN mp, OF refl]
    by (simp add: t e)
  have c: "stdout (snd (main (fixed_service 3 ?p3) keep_ties demo_args fresh_world)) =
     [''Searching TaxID 9606...'', ''Fetching & filtering...'',
      ''Saved CSV: taxid_9606_filtered.csv'', ''Saved plot: taxid_9606_plot.png''] \<and>
   written (snd (main (fixed_service 3 ?p3) keep_ties demo_args fresh_world)) =
     [(''taxid_9606_filtered.csv'',
       CSV [''Accession'', ''Length'', ''Description''] [(''C'', 800, ''demo'')]),
      (''taxid_9606_plot.png'', PNG [''C''] [800])]"
    using C [THEN conjunct2, THEN mp, OF n3, THEN spec, THEN spec, THEN mp, OF f3,
             THEN conjunct2, THEN mp, OF ne]
    by (simp add: t e sv Accession_def Length_def)
  show ?thesis using a b c by blast
qed

end
